theory Spec2Isabelle
  imports Main
begin

section \<open>Python values and exceptions\<close>

text \<open>
  The exceptions the modelled code can raise. \<open>AssertionError\<close> is what a failed
  \<^verbatim>\<open>assert\<close> raises, \<open>IndexError\<close> what \<^verbatim>\<open>t.size(k)\<close> raises for a dimension the
  tensor does not have, \<open>RuntimeError\<close> what the tensor library raises for shapes and
  memory layouts that do not fit and for a forbidden change of \<^verbatim>\<open>requires_grad\<close>,
  \<open>TypeError\<close> what it raises for an argument it cannot read as a 64-bit integer.
  \<open>Unsupported\<close> marks calls of a library operation on ranks that this file never
  produces and that are therefore left out of the library model.
\<close>

datatype error =
  AssertionError | IndexError | RuntimeError | AttributeError | ValueError | TypeError
  | Unsupported

text \<open>
  A Python argument: an \<^verbatim>\<open>int\<close> (unbounded), a \<^verbatim>\<open>bool\<close>, or something else.
  \<^verbatim>\<open>bool\<close> is a subclass of \<^verbatim>\<open>int\<close>, so \<^verbatim>\<open>isinstance(v, int)\<close> holds for both, and in
  comparisons and arithmetic \<^verbatim>\<open>True\<close> and \<^verbatim>\<open>False\<close> count as 1 and 0.
\<close>

datatype pyval = PyInt int | PyBool bool | PyNonInt

definition isinstance_int :: "pyval \<Rightarrow> bool" where
  "isinstance_int v = (case v of PyNonInt \<Rightarrow> False | _ \<Rightarrow> True)"

definition int_of :: "pyval \<Rightarrow> int" where
  "int_of v = (case v of PyInt i \<Rightarrow> i | PyBool b \<Rightarrow> (if b then 1 else 0) | PyNonInt \<Rightarrow> 0)"

text \<open>
  An integer argument as the tensor library reads it: the library takes a Python \<^verbatim>\<open>int\<close>
  that fits in a signed 64-bit integer and raises \<open>TypeError\<close> for a larger one, for a
  \<^verbatim>\<open>bool\<close> and for everything else.
\<close>

definition int64_arg :: "pyval \<Rightarrow> error + int" where
  "int64_arg v =
     (case v of
        PyInt i \<Rightarrow> if - (2 ^ 63) \<le> i \<and> i < 2 ^ 63 then Inr i else Inl TypeError
      | _ \<Rightarrow> Inl TypeError)"

definition bind_e :: "error + 'a \<Rightarrow> ('a \<Rightarrow> error + 'b) \<Rightarrow> error + 'b" where
  "bind_e r f = (case r of Inl e \<Rightarrow> Inl e | Inr v \<Rightarrow> f v)"

section \<open>Tensors\<close>

text \<open>
  The contents of a tensor: its shape and its elements in row-major order of their
  indices. The elements are taken from a commutative ring, so every statement below is
  about exact arithmetic.
\<close>

record 'a tensor =
  shape :: "nat list"
  data :: "'a list"

definition numel :: "'a tensor \<Rightarrow> nat" where
  "numel t = prod_list (shape t)"

definition wf_tensor :: "'a tensor \<Rightarrow> bool" where
  "wf_tensor t \<longleftrightarrow> length (data t) = numel t"

text \<open>Row-major enumeration of the elements of a 2-D, 3-D and 4-D tensor.\<close>

definition tab2 :: "nat \<Rightarrow> nat \<Rightarrow> (nat \<Rightarrow> nat \<Rightarrow> 'a) \<Rightarrow> 'a list" where
  "tab2 A B f = concat (map (\<lambda>a. map (f a) [0..<B]) [0..<A])"

definition tab3 :: "nat \<Rightarrow> nat \<Rightarrow> nat \<Rightarrow> (nat \<Rightarrow> nat \<Rightarrow> nat \<Rightarrow> 'a) \<Rightarrow> 'a list" where
  "tab3 A B C f = concat (map (\<lambda>a. tab2 B C (f a)) [0..<A])"

definition tab4 ::
  "nat \<Rightarrow> nat \<Rightarrow> nat \<Rightarrow> nat \<Rightarrow> (nat \<Rightarrow> nat \<Rightarrow> nat \<Rightarrow> nat \<Rightarrow> 'a) \<Rightarrow> 'a list" where
  "tab4 A B C D f = concat (map (\<lambda>a. tab3 B C D (f a)) [0..<A])"

text \<open>Element access by multi-index (row-major offset).\<close>

definition at2 :: "'a tensor \<Rightarrow> nat \<Rightarrow> nat \<Rightarrow> 'a" where
  "at2 t i j = data t ! (i * (shape t ! 1) + j)"

definition at3 :: "'a tensor \<Rightarrow> nat \<Rightarrow> nat \<Rightarrow> nat \<Rightarrow> 'a" where
  "at3 t i j k = data t ! ((i * (shape t ! 1) + j) * (shape t ! 2) + k)"

definition at4 :: "'a tensor \<Rightarrow> nat \<Rightarrow> nat \<Rightarrow> nat \<Rightarrow> nat \<Rightarrow> 'a" where
  "at4 t i j k l =
     data t ! (((i * (shape t ! 1) + j) * (shape t ! 2) + k) * (shape t ! 3) + l)"

subsection \<open>The library operations the convolution uses\<close>

text \<open>
  A tensor as the library holds it: its contents and the strides of its memory layout,
  one per axis. Only \<^verbatim>\<open>view\<close> depends on the strides; every other operation below reads
  and writes elements through their indices and accepts any layout.
\<close>

record 'a strided =
  contents :: "'a tensor"
  strides :: "nat list"

text \<open>
  The strides of a freshly allocated (contiguous) tensor, and such a tensor. The results
  of \<^verbatim>\<open>unfold\<close>, \<^verbatim>\<open>fold\<close>, \<^verbatim>\<open>@\<close>, \<^verbatim>\<open>sum\<close> and \<^verbatim>\<open>+=\<close> on such a result are contiguous.
\<close>

fun row_major :: "nat list \<Rightarrow> nat list" where
  "row_major [] = []"
| "row_major (d # ds) = prod_list (map (max 1) ds) # row_major ds"

definition contiguous :: "'a tensor \<Rightarrow> 'a strided" where
  "contiguous t = \<lparr>contents = t, strides = row_major (shape t)\<rparr>"

text \<open>
  The shape \<^verbatim>\<open>t.view(*dims)\<close> asks for, for a tensor of \<open>n\<close> elements: one entry may be
  \<open>-1\<close> and is then inferred from the number of elements.
\<close>

definition infer_size :: "int list \<Rightarrow> nat \<Rightarrow> error + nat list" where
  "infer_size dims n =
     (let known = prod_list (map nat (filter (\<lambda>d. d \<noteq> - 1) dims)) in
      if (\<exists>d \<in> set dims. d < - 1) \<or> 1 < length (filter (\<lambda>d. d = - 1) dims)
      then Inl RuntimeError
      else if - 1 \<in> set dims then
        (if known = 0 \<or> n mod known \<noteq> 0 then Inl RuntimeError
         else Inr (map (\<lambda>d. if d = - 1 then n div known else nat d) dims))
      else if known \<noteq> n then Inl RuntimeError
      else Inr (map nat dims))"

text \<open>
  Whether a tensor of shape \<open>oldshape\<close> and strides \<open>oldstride\<close> can be viewed under
  \<open>newshape\<close> without copying. The library walks the axes from the last to the first and
  cuts them into chunks of axes that lie densely in memory (\<open>stride[i] = stride[i+1] \<cdot>
  size[i+1]\<close>, axes of size 1 joining any chunk); every chunk must be filled exactly by
  a run of axes of the new shape. \<open>take_dims\<close> is the inner loop that takes axes of the
  new shape for one chunk, \<open>chunks\<close> the outer loop over the axes, given as pairs of size
  and stride, last axis first. A tensor without axes or without elements can always be
  viewed.
\<close>

fun take_dims :: "nat \<Rightarrow> nat \<Rightarrow> nat list \<Rightarrow> nat \<times> nat list" where
  "take_dims tensor_numel view_numel [] = (view_numel, [])"
| "take_dims tensor_numel view_numel (d # ds) =
     (if view_numel < tensor_numel \<or> d = 1
      then take_dims tensor_numel (view_numel * d) ds
      else (view_numel, d # ds))"

fun chunks :: "(nat \<times> nat) list \<Rightarrow> nat \<Rightarrow> nat \<Rightarrow> nat list \<Rightarrow> bool" where
  "chunks [] chunk_base_stride tensor_numel view_dims = (view_dims = [])"
| "chunks [(sz, st)] chunk_base_stride tensor_numel view_dims =
     (case take_dims (tensor_numel * sz) 1 view_dims of
        (view_numel, rest) \<Rightarrow> view_numel = tensor_numel * sz \<and> rest = [])"
| "chunks ((sz, st) # (sz', st') # axes) chunk_base_stride tensor_numel view_dims =
     (if sz' \<noteq> 1 \<and> st' \<noteq> tensor_numel * sz * chunk_base_stride
      then (case take_dims (tensor_numel * sz) 1 view_dims of
              (view_numel, rest) \<Rightarrow>
                view_numel = tensor_numel * sz \<and> chunks ((sz', st') # axes) st' 1 rest)
      else chunks ((sz', st') # axes) chunk_base_stride (tensor_numel * sz) view_dims)"

definition view_compatible :: "nat list \<Rightarrow> nat list \<Rightarrow> nat list \<Rightarrow> bool" where
  "view_compatible oldshape oldstride newshape =
     (oldshape = [] \<or> prod_list oldshape = 0 \<or>
      chunks (rev (zip oldshape oldstride)) (last oldstride) 1 (rev newshape))"

text \<open>
  \<^verbatim>\<open>t.view(*dims)\<close>: the same elements under another shape. It raises \<open>RuntimeError\<close>
  when the shape does not fit the number of elements and when the layout of \<open>t\<close> does not
  allow the new shape without a copy.
\<close>

definition view :: "'a strided \<Rightarrow> int list \<Rightarrow> error + 'a tensor" where
  "view t dims =
     bind_e (infer_size dims (numel (contents t))) (\<lambda>newshape.
       if view_compatible (shape (contents t)) (strides t) newshape
       then Inr \<lparr>shape = newshape, data = data (contents t)\<rparr>
       else Inl RuntimeError)"

text \<open>
  The padding and the stride as \<^verbatim>\<open>unfold\<close> and \<^verbatim>\<open>fold\<close> receive them: 64-bit integers,
  the padding not negative and the stride positive.
\<close>

definition window_args :: "pyval \<Rightarrow> pyval \<Rightarrow> error + nat \<times> nat" where
  "window_args padding stride =
     bind_e (int64_arg padding) (\<lambda>p.
     bind_e (int64_arg stride) (\<lambda>s.
       if p < 0 \<or> s \<le> 0 then Inl RuntimeError else Inr (nat p, nat s)))"

text \<open>Number of sliding-window positions along one axis.\<close>

definition out_size :: "nat \<Rightarrow> nat \<Rightarrow> nat \<Rightarrow> nat \<Rightarrow> nat" where
  "out_size H K s p = (H + 2 * p - K) div s + 1"

text \<open>Reading the zero-padded input: positions in the border of width \<open>p\<close> read as 0.\<close>

definition padded_at :: "'a::zero tensor \<Rightarrow> nat \<Rightarrow> nat \<Rightarrow> nat \<Rightarrow> nat \<Rightarrow> nat \<Rightarrow> 'a" where
  "padded_at x p n c i j =
     (if p \<le> i \<and> i < shape x ! 2 + p \<and> p \<le> j \<and> j < shape x ! 3 + p
      then at4 x n c (i - p) (j - p) else 0)"

text \<open>
  \<^verbatim>\<open>unfold(input, kernel_size, padding=p, stride=s)\<close> on a batched input \<open>(N, C, H, W)\<close>:
  the result has shape \<open>(N, C\<cdot>K\<cdot>K, L)\<close>; row \<open>r = (c\<cdot>K + ki)\<cdot>K + kj\<close> and column
  \<open>l = oh\<cdot>W_o + ow\<close> hold the padded input at channel \<open>c\<close>, row \<open>oh\<cdot>s + ki\<close>, column
  \<open>ow\<cdot>s + kj\<close>.
\<close>

definition patch_entry ::
  "'a::zero tensor \<Rightarrow> nat \<Rightarrow> nat \<Rightarrow> nat \<Rightarrow> nat \<Rightarrow> nat \<Rightarrow> nat \<Rightarrow> nat \<Rightarrow> 'a" where
  "patch_entry x K p s W_o n r l =
     padded_at x p n (r div (K * K)) ((l div W_o) * s + (r div K) mod K)
       ((l mod W_o) * s + r mod K)"

definition unfold :: "'a::zero tensor \<Rightarrow> nat \<Rightarrow> nat \<Rightarrow> nat \<Rightarrow> error + 'a tensor" where
  "unfold x K p s =
     (if length (shape x) \<noteq> 4 then Inl Unsupported
      else
        let N = shape x ! 0; C = shape x ! 1; H = shape x ! 2; W = shape x ! 3 in
        if K = 0 \<or> s = 0 \<or> C = 0 \<or> H = 0 \<or> W = 0 \<or> H + 2 * p < K \<or> W + 2 * p < K
        then Inl RuntimeError
        else
          let H_o = out_size H K s p; W_o = out_size W K s p in
          Inr \<lparr>shape = [N, C * K * K, H_o * W_o],
               data = tab3 N (C * K * K) (H_o * W_o) (patch_entry x K p s W_o)\<rparr>)"

text \<open>
  \<^verbatim>\<open>a @ b\<close> for a matrix times a batch of matrices and for two batches of matrices of
  the same batch size.
\<close>

definition matmul :: "'a::semiring_0 tensor \<Rightarrow> 'a tensor \<Rightarrow> error + 'a tensor" where
  "matmul a b =
     (if length (shape a) = 2 \<and> length (shape b) = 3 then
        (let M = shape a ! 0; R = shape a ! 1; N = shape b ! 0; L = shape b ! 2 in
         if R \<noteq> shape b ! 1 then Inl RuntimeError
         else Inr \<lparr>shape = [N, M, L],
                   data = tab3 N M L
                     (\<lambda>n m l. sum_list (map (\<lambda>r. at2 a m r * at3 b n r l) [0..<R]))\<rparr>)
      else if length (shape a) = 3 \<and> length (shape b) = 3 then
        (let N = shape a ! 0; M = shape a ! 1; R = shape a ! 2; L = shape b ! 2 in
         if R \<noteq> shape b ! 1 then Inl RuntimeError
         else if N \<noteq> shape b ! 0
         then Inl (if N = 1 \<or> shape b ! 0 = 1 then Unsupported else RuntimeError)
         else Inr \<lparr>shape = [N, M, L],
                   data = tab3 N M L
                     (\<lambda>n m l. sum_list (map (\<lambda>r. at3 a n m r * at3 b n r l) [0..<R]))\<rparr>)
      else Inl Unsupported)"

text \<open>
  \<^verbatim>\<open>t += b\<close> for \<open>t\<close> of shape \<open>(N, M, L)\<close> and \<open>b\<close> of shape \<open>(M, 1)\<close> or \<open>(1, 1)\<close>,
  broadcast along the batch and the last axis.
\<close>

definition iadd_bcast :: "'a::plus tensor \<Rightarrow> 'a tensor \<Rightarrow> error + 'a tensor" where
  "iadd_bcast t b =
     (if length (shape t) \<noteq> 3 \<or> length (shape b) \<noteq> 2 \<or> shape b ! 1 \<noteq> 1 then Inl Unsupported
      else
        let N = shape t ! 0; M = shape t ! 1; L = shape t ! 2 in
        if shape b ! 0 = M
        then Inr (t\<lparr>data := tab3 N M L (\<lambda>n m l. at3 t n m l + data b ! m)\<rparr>)
        else if shape b ! 0 = 1
        then Inr (t\<lparr>data := tab3 N M L (\<lambda>n m l. at3 t n m l + data b ! 0)\<rparr>)
        else Inl RuntimeError)"

text \<open>
  \<^verbatim>\<open>fold(input, (H, W), kernel_size, padding=p, stride=s)\<close> on a batched input
  \<open>(N, C\<cdot>K\<cdot>K, L)\<close>: every entry of the patch matrix is added to the position of the
  \<open>(N, C, H, W)\<close> result it was extracted from; entries that belong to the padding are
  dropped. Element \<open>(n, c, h, w)\<close> of the result is therefore the sum of the entries at
  row \<open>(c\<cdot>K + ki)\<cdot>K + kj\<close> and column \<open>oh\<cdot>W_o + ow\<close> over all \<open>ki, kj, oh, ow\<close>
  with \<open>oh\<cdot>s + ki = h + p\<close> and \<open>ow\<cdot>s + kj = w + p\<close>.
\<close>

definition fold_t ::
  "'a::comm_monoid_add tensor \<Rightarrow> nat \<times> nat \<Rightarrow> nat \<Rightarrow> nat \<Rightarrow> nat \<Rightarrow> error + 'a tensor" where
  "fold_t t output_size K p s =
     (if length (shape t) \<noteq> 3 then Inl Unsupported
      else
        let N = shape t ! 0; R = shape t ! 1; L = shape t ! 2;
            H = fst output_size; W = snd output_size in
        if K = 0 \<or> s = 0 \<or> R = 0 \<or> L = 0 \<or> R mod (K * K) \<noteq> 0
           \<or> H + 2 * p < K \<or> W + 2 * p < K
           \<or> L \<noteq> out_size H K s p * out_size W K s p \<or> H = 0 \<or> W = 0
        then Inl RuntimeError
        else
          let H_o = out_size H K s p; W_o = out_size W K s p; C = R div (K * K) in
          Inr \<lparr>shape = [N, C, H, W],
               data = tab4 N C H W (\<lambda>n c h w.
                 (\<Sum>ki\<leftarrow>[0..<K]. \<Sum>kj\<leftarrow>[0..<K]. \<Sum>oh\<leftarrow>[0..<H_o]. \<Sum>ow\<leftarrow>[0..<W_o].
                    if oh * s + ki = h + p \<and> ow * s + kj = w + p
                    then at3 t n ((c * K + ki) * K + kj) (oh * W_o + ow) else 0))\<rparr>)"

text \<open>\<^verbatim>\<open>m.T\<close> of a matrix and \<^verbatim>\<open>torch.transpose(t, 1, 2)\<close> of a batch of matrices.\<close>

definition transpose_T :: "'a tensor \<Rightarrow> error + 'a tensor" where
  "transpose_T t =
     (if length (shape t) \<noteq> 2 then Inl Unsupported
      else
        let A = shape t ! 0; B = shape t ! 1 in
        Inr \<lparr>shape = [B, A], data = tab2 B A (\<lambda>j i. at2 t i j)\<rparr>)"

definition transpose_1_2 :: "'a tensor \<Rightarrow> error + 'a tensor" where
  "transpose_1_2 t =
     (if length (shape t) \<noteq> 3 then Inl Unsupported
      else
        let N = shape t ! 0; A = shape t ! 1; B = shape t ! 2 in
        Inr \<lparr>shape = [N, B, A], data = tab3 N B A (\<lambda>n j i. at3 t n i j)\<rparr>)"

text \<open>\<^verbatim>\<open>torch.sum(t, dim=0)\<close> of a 3-D tensor and \<^verbatim>\<open>t.sum((0, 2, 3))\<close> of a 4-D tensor.\<close>

definition sum_dim0 :: "'a::comm_monoid_add tensor \<Rightarrow> error + 'a tensor" where
  "sum_dim0 t =
     (if length (shape t) \<noteq> 3 then Inl Unsupported
      else
        let N = shape t ! 0; A = shape t ! 1; B = shape t ! 2 in
        Inr \<lparr>shape = [A, B], data = tab2 A B (\<lambda>i j. \<Sum>n\<leftarrow>[0..<N]. at3 t n i j)\<rparr>)"

definition sum_dims_0_2_3 :: "'a::comm_monoid_add tensor \<Rightarrow> error + 'a tensor" where
  "sum_dims_0_2_3 t =
     (if length (shape t) < 4 then Inl IndexError
      else if length (shape t) \<noteq> 4 then Inl Unsupported
      else
        let N = shape t ! 0; C = shape t ! 1; H = shape t ! 2; W = shape t ! 3 in
        Inr \<lparr>shape = [C],
             data = map (\<lambda>c. \<Sum>n\<leftarrow>[0..<N]. \<Sum>h\<leftarrow>[0..<H]. \<Sum>w\<leftarrow>[0..<W]. at4 t n c h w)
                      [0..<C]\<rparr>)"

section \<open>CustomConv2DFunction\<close>

text \<open>
  The context object \<^verbatim>\<open>ctx\<close> that carries state from forward to backward. An
  attribute that has not been set is \<open>None\<close>. \<open>needs_input_grad\<close> holds the flags of
  \<^verbatim>\<open>input_feats\<close>, \<^verbatim>\<open>weight\<close> and \<^verbatim>\<open>bias\<close>, the only ones the code reads.
\<close>

record 'a ctx =
  ctx_stride :: "pyval option"
  ctx_padding :: "pyval option"
  ctx_input_height :: "nat option"
  ctx_input_width :: "nat option"
  saved_tensors :: "('a tensor \<times> 'a strided \<times> 'a strided option) option"
  needs_input_grad :: "bool \<times> bool \<times> bool"

text \<open>
  The computation of \<^verbatim>\<open>forward\<close> after its sanity checks (lines 63 to 85): the unfolded
  input, which is saved for backward, and the output. The weight and the bias come from
  the caller in whatever layout they have; \<^verbatim>\<open>output_unfolded\<close> is the result of \<^verbatim>\<open>@\<close> and
  contiguous.
\<close>

definition forward_compute ::
  "'a::comm_ring_1 tensor \<Rightarrow> 'a strided \<Rightarrow> 'a strided option \<Rightarrow> pyval \<Rightarrow> pyval
     \<Rightarrow> error + ('a tensor \<times> 'a tensor)" where
  "forward_compute input_feats weight bias stride padding =
     (let kernel_size = shape (contents weight) ! 2;
          N = shape input_feats ! 0; H = shape input_feats ! 2;
          C_o = shape (contents weight) ! 0 in
      bind_e (window_args padding stride) (\<lambda>(p, s).
      bind_e (unfold input_feats kernel_size p s) (\<lambda>input_unfolded.
      bind_e (view weight [int C_o, - 1]) (\<lambda>weight_unfolded.
      bind_e (matmul weight_unfolded input_unfolded) (\<lambda>output_unfolded.
      bind_e (case bias of
                None \<Rightarrow> Inr output_unfolded
              | Some b \<Rightarrow> bind_e (view b [- 1, 1]) (iadd_bcast output_unfolded))
        (\<lambda>output_unfolded.
      let H_o = (int H + 2 * int_of padding - int kernel_size) div int_of stride + 1 in
      bind_e (view (contiguous output_unfolded) [int N, int C_o, H_o, - 1]) (\<lambda>output.
      Inr (input_unfolded, output))))))))"

text \<open>
  \<^verbatim>\<open>CustomConv2DFunction.forward\<close>. The result is the context as the call leaves it and
  either the exception raised or the output tensor.
\<close>

definition forward ::
  "'a::comm_ring_1 ctx \<Rightarrow> 'a tensor \<Rightarrow> 'a strided \<Rightarrow> 'a strided option \<Rightarrow> pyval \<Rightarrow> pyval
     \<Rightarrow> 'a ctx \<times> (error + 'a tensor)" where
  "forward c input_feats weight bias stride padding =
     (if length (shape (contents weight)) < 4 then (c, Inl IndexError)
      else if shape (contents weight) ! 2 \<noteq> shape (contents weight) ! 3
      then (c, Inl AssertionError)
      else if length (shape input_feats) < 2 then (c, Inl IndexError)
      else if shape input_feats ! 1 \<noteq> shape (contents weight) ! 1
      then (c, Inl AssertionError)
      else if \<not> (isinstance_int stride \<and> 0 < int_of stride) then (c, Inl AssertionError)
      else if \<not> (isinstance_int padding \<and> 0 \<le> int_of padding) then (c, Inl AssertionError)
      else
        let kernel_size = shape (contents weight) ! 2;
            c1 = c\<lparr>ctx_stride := Some stride, ctx_padding := Some padding\<rparr> in
        if length (shape input_feats) < 3 then (c1, Inl IndexError)
        else
          let c2 = c1\<lparr>ctx_input_height := Some (shape input_feats ! 2)\<rparr> in
          if length (shape input_feats) < 4 then (c2, Inl IndexError)
          else
            let c3 = c2\<lparr>ctx_input_width := Some (shape input_feats ! 3)\<rparr> in
            if \<not> int kernel_size \<le> int (shape input_feats ! 2) + 2 * int_of padding
            then (c3, Inl AssertionError)
            else if \<not> int kernel_size \<le> int (shape input_feats ! 3) + 2 * int_of padding
            then (c3, Inl AssertionError)
            else
              (case forward_compute input_feats weight bias stride padding of
                 Inl e \<Rightarrow> (c3, Inl e)
               | Inr (input_unfolded, output) \<Rightarrow>
                   (c3\<lparr>saved_tensors := Some (input_unfolded, weight, bias)\<rparr>,
                    Inr output)))"

text \<open>
  \<^verbatim>\<open>CustomConv2DFunction.backward\<close>: the gradients with respect to the input, the
  weight and the bias (the gradients returned for stride and padding are always
  \<^verbatim>\<open>None\<close>). \<^verbatim>\<open>grad_output\<close> comes from the caller in whatever layout it has;
  \<^verbatim>\<open>grad_weight_unfolded\<close> is the result of \<^verbatim>\<open>torch.sum\<close> and contiguous.
\<close>

definition backward ::
  "'a::comm_ring_1 ctx \<Rightarrow> 'a strided
     \<Rightarrow> error + ('a tensor option \<times> 'a tensor option \<times> 'a tensor option)" where
  "backward c grad_output =
     (case saved_tensors c of
        None \<Rightarrow> Inl ValueError
      | Some (input_unfolded, weight, bias) \<Rightarrow>
     (if length (shape (contents weight)) < 3 then Inl IndexError
      else
     (case (ctx_stride c, ctx_padding c, ctx_input_height c, ctx_input_width c) of
        (Some stride, Some padding, Some input_height, Some input_width) \<Rightarrow>
          (let kernel_size = shape (contents weight) ! 2 in
           if length (shape (contents grad_output)) < 2 then Inl IndexError
           else
             bind_e (view grad_output
                       [int (shape (contents grad_output) ! 0),
                        int (shape (contents grad_output) ! 1), - 1])
               (\<lambda>grad_output_unfolded.
             bind_e
               (if fst (needs_input_grad c) then
                  bind_e (view weight [int (shape (contents weight) ! 0), - 1])
                    (\<lambda>weight_unfolded.
                  bind_e (transpose_T weight_unfolded) (\<lambda>weight_T.
                  bind_e (matmul weight_T grad_output_unfolded) (\<lambda>grad_input_unfolded.
                  bind_e (window_args padding stride) (\<lambda>(p, s).
                  bind_e (fold_t grad_input_unfolded (input_height, input_width)
                            kernel_size p s) (\<lambda>grad_input.
                  Inr (Some grad_input))))))
                else Inr None)
               (\<lambda>grad_input.
             bind_e
               (if fst (snd (needs_input_grad c)) then
                  bind_e (transpose_1_2 input_unfolded) (\<lambda>input_transpose.
                  bind_e (matmul grad_output_unfolded input_transpose) (\<lambda>prods.
                  bind_e (sum_dim0 prods) (\<lambda>grad_weight_unfolded.
                  bind_e (view (contiguous grad_weight_unfolded)
                            [int (shape (contents weight) ! 0), - 1,
                             int kernel_size, int kernel_size])
                    (\<lambda>grad_weight.
                  Inr (Some grad_weight)))))
                else Inr None)
               (\<lambda>grad_weight.
             bind_e
               (if bias \<noteq> None \<and> snd (snd (needs_input_grad c)) then
                  bind_e (sum_dims_0_2_3 (contents grad_output))
                    (\<lambda>grad_bias. Inr (Some grad_bias))
                else Inr None)
               (\<lambda>grad_bias.
             Inr (grad_input, grad_weight, grad_bias))))))
      | _ \<Rightarrow> Inl AttributeError)))"

section \<open>The reference convolution\<close>


text \<open>
  The overlap multiplicity of position \<open>(h, w)\<close> of an \<open>H \<times> W\<close> map: the number of
  receptive fields (windows \<open>(oh, ow)\<close> of the sliding kernel) that cover it.
\<close>

definition overlap_multiplicity ::
  "nat \<Rightarrow> nat \<Rightarrow> nat \<Rightarrow> nat \<Rightarrow> nat \<Rightarrow> nat \<Rightarrow> nat \<Rightarrow> nat" where
  "overlap_multiplicity H W K s p h w =
     (\<Sum>oh\<leftarrow>[0..<out_size H K s p]. \<Sum>ow\<leftarrow>[0..<out_size W K s p].
        if oh * s \<le> h + p \<and> h + p < oh * s + K \<and> ow * s \<le> w + p \<and> w + p < ow * s + K
        then 1 else 0)"

text \<open>
  The inner product of two tensors of the same shape and the element-wise sum of two
  tensors of the same shape; they state what a gradient is.
\<close>

definition dot :: "'a::comm_ring_1 tensor \<Rightarrow> 'a tensor \<Rightarrow> 'a" where
  "dot a b = sum_list (map2 (*) (data a) (data b))"

definition tensor_add :: "'a::comm_ring_1 tensor \<Rightarrow> 'a tensor \<Rightarrow> 'a tensor" where
  "tensor_add a b = \<lparr>shape = shape a, data = map2 (+) (data a) (data b)\<rparr>"




text \<open>What the sanity checks of \<^verbatim>\<open>forward\<close> ask of the stride and the padding.\<close>

definition is_pos_int :: "pyval \<Rightarrow> bool" where
  "is_pos_int v = (case v of PyInt i \<Rightarrow> 0 < i | PyBool b \<Rightarrow> b | PyNonInt \<Rightarrow> False)"

definition is_nonneg_int :: "pyval \<Rightarrow> bool" where
  "is_nonneg_int v = (case v of PyInt i \<Rightarrow> 0 \<le> i | PyBool b \<Rightarrow> True | PyNonInt \<Rightarrow> False)"

section \<open>Models, losses and automatic differentiation\<close>












subsection \<open>Element-wise operations and reductions\<close>











section \<open>PGDAttack\<close>








section \<open>GradAttention\<close>


section \<open>Example data\<close>

definition ctx0 :: "int ctx" where
  "ctx0 = \<lparr>ctx_stride = None, ctx_padding = None, ctx_input_height = None,
            ctx_input_width = None, saved_tensors = None,
            needs_input_grad = (True, True, True)\<rparr>"

definition ex_input :: "int tensor" where
  "ex_input = \<lparr>shape = [1, 1, 3, 3], data = [1, 2, 3, 4, 5, 6, 7, 8, 9]\<rparr>"

definition ex_weight :: "int tensor" where
  "ex_weight = \<lparr>shape = [1, 1, 2, 2], data = [1, 0, 2, - 1]\<rparr>"

definition ex_bias :: "int tensor" where
  "ex_bias = \<lparr>shape = [1], data = [10]\<rparr>"

text \<open>
  An empty batch, the weight in the layout that \<^verbatim>\<open>transpose(2, 3)\<close> of a contiguous
  tensor has, and an output gradient in that layout.
\<close>

definition ex_empty_batch :: "int tensor" where
  "ex_empty_batch = \<lparr>shape = [0, 1, 3, 3], data = []\<rparr>"

definition ex_weight_transposed :: "int strided" where
  "ex_weight_transposed = \<lparr>contents = ex_weight, strides = [4, 4, 1, 2]\<rparr>"

definition ex_grad :: "int tensor" where
  "ex_grad = \<lparr>shape = [1, 1, 2, 2], data = [1, 1, 1, 1]\<rparr>"

definition ex_grad_transposed :: "int strided" where
  "ex_grad_transposed = \<lparr>contents = ex_grad, strides = [4, 4, 1, 2]\<rparr>"











section \<open>Lists, indices and sums\<close>

lemma length_concat_uniform:
  "(\<And>ys. ys \<in> set xss \<Longrightarrow> length ys = m) \<Longrightarrow> length (concat xss) = length xss * m"
  by (induction xss) simp_all

lemma nth_concat_uniform:
  "(\<And>ys. ys \<in> set xss \<Longrightarrow> length ys = m) \<Longrightarrow> i < length xss \<Longrightarrow> j < m
     \<Longrightarrow> concat xss ! (i * m + j) = xss ! i ! j"
proof (induction xss arbitrary: i)
  case Nil
  then show ?case by simp
next
  case (Cons ys xss)
  have len: "length ys = m" using Cons.prems(1) by simp
  show ?case
  proof (cases i)
    case 0
    then show ?thesis using len Cons.prems(3) by (simp add: nth_append)
  next
    case (Suc i')
    have "concat xss ! (i' * m + j) = xss ! i' ! j"
      using Cons.IH[of i'] Cons.prems Suc by simp
    then show ?thesis using len Suc by (simp add: nth_append)
  qed
qed

lemma length_tab2 [simp]: "length (tab2 A B f) = A * B"
  unfolding tab2_def by (subst length_concat_uniform[where m = B]) auto

lemma nth_tab2: "i < A \<Longrightarrow> j < B \<Longrightarrow> tab2 A B f ! (i * B + j) = f i j"
  unfolding tab2_def by (subst nth_concat_uniform[where m = B]) auto

lemma length_tab3 [simp]: "length (tab3 A B C f) = A * B * C"
  unfolding tab3_def by (subst length_concat_uniform[where m = "B * C"]) auto

lemma idx_less: "j < B \<Longrightarrow> k < C \<Longrightarrow> j * C + k < B * (C::nat)"
proof -
  assume a: "j < B" "k < C"
  then have "j * C + k < j * C + C" by simp
  also have "\<dots> = (Suc j) * C" by simp
  also have "\<dots> \<le> B * C" using a(1) by (intro mult_le_mono1) simp
  finally show ?thesis .
qed

lemma nth_tab3:
  assumes "i < A" "j < B" "k < C"
  shows "tab3 A B C f ! ((i * B + j) * C + k) = f i j k"
proof -
  have e: "(i * B + j) * C + k = i * (B * C) + (j * C + k)" by (simp add: algebra_simps)
  have "tab3 A B C f ! (i * (B * C) + (j * C + k)) = tab2 B C (f i) ! (j * C + k)"
    unfolding tab3_def
    using assms by (subst nth_concat_uniform[where m = "B * C"]) (auto simp: idx_less)
  then show ?thesis using assms by (simp add: e nth_tab2)
qed

lemma length_tab4 [simp]: "length (tab4 A B C D f) = A * B * C * D"
  unfolding tab4_def by (subst length_concat_uniform[where m = "B * C * D"]) auto

lemma nth_tab4:
  assumes "i < A" "j < B" "k < C" "l < D"
  shows "tab4 A B C D f ! (((i * B + j) * C + k) * D + l) = f i j k l"
proof -
  have e: "((i * B + j) * C + k) * D + l = i * (B * C * D) + ((j * C + k) * D + l)"
    by (simp add: algebra_simps)
  have b: "(j * C + k) * D + l < B * C * D"
    using idx_less[OF idx_less[OF assms(2,3)] assms(4)] .
  have "tab4 A B C D f ! (i * (B * C * D) + ((j * C + k) * D + l))
      = tab3 B C D (f i) ! ((j * C + k) * D + l)"
    unfolding tab4_def
    using assms b by (subst nth_concat_uniform[where m = "B * C * D"]) auto
  then show ?thesis using assms by (simp add: e nth_tab3)
qed

lemma tab2_cong:
  "(\<And>i j. i < A \<Longrightarrow> j < B \<Longrightarrow> f i j = g i j) \<Longrightarrow> tab2 A B f = tab2 A B g"
  unfolding tab2_def by (intro arg_cong[where f = concat] map_cong) auto

lemma tab3_cong:
  "(\<And>i j k. i < A \<Longrightarrow> j < B \<Longrightarrow> k < C \<Longrightarrow> f i j k = g i j k) \<Longrightarrow> tab3 A B C f = tab3 A B C g"
  unfolding tab3_def by (intro arg_cong[where f = concat] map_cong tab2_cong) auto

lemma tab4_cong:
  "(\<And>i j k l. i < A \<Longrightarrow> j < B \<Longrightarrow> k < C \<Longrightarrow> l < D \<Longrightarrow> f i j k l = g i j k l)
     \<Longrightarrow> tab4 A B C D f = tab4 A B C D g"
  unfolding tab4_def by (intro arg_cong[where f = concat] map_cong tab3_cong) auto

lemma map_upt_mult:
  "map g [0..<A * B] = concat (map (\<lambda>a. map (\<lambda>b. g (a * B + b)) [0..<B]) [0..<A])"
proof (rule nth_equalityI)
  show "length (map g [0..<A * B]) = length (concat (map (\<lambda>a. map (\<lambda>b. g (a * B + b)) [0..<B]) [0..<A]))"
    by (subst length_concat_uniform[where m = B]) auto
next
  fix i assume "i < length (map g [0..<A * B])"
  then have i: "i < A * B" by simp
  then have B: "0 < B" by (cases B) auto
  have d: "i div B < A" using i by (simp add: less_mult_imp_div_less)
  have m: "i mod B < B" using B by simp
  have "concat (map (\<lambda>a. map (\<lambda>b. g (a * B + b)) [0..<B]) [0..<A]) ! (i div B * B + i mod B)
      = g (i div B * B + i mod B)"
    using d m by (subst nth_concat_uniform[where m = B]) auto
  then show "map g [0..<A * B] ! i = concat (map (\<lambda>a. map (\<lambda>b. g (a * B + b)) [0..<B]) [0..<A]) ! i"
    using i by simp
qed

lemma tab2_flat: "tab2 A B f = map (\<lambda>i. f (i div B) (i mod B)) [0..<A * B]"
  unfolding tab2_def map_upt_mult
  by (intro arg_cong[where f = concat] map_cong) auto


lemma sum_list_concat_map:
  fixes xss :: "'a::monoid_add list list"
  shows "sum_list (concat xss) = sum_list (map sum_list xss)"
  by (induction xss) simp_all

lemma sum_list_upt_mult:
  fixes g :: "nat \<Rightarrow> 'a::comm_monoid_add"
  shows "sum_list (map g [0..<A * B])
     = sum_list (map (\<lambda>a. sum_list (map (\<lambda>b. g (a * B + b)) [0..<B])) [0..<A])"
  by (simp add: map_upt_mult sum_list_concat_map comp_def)


lemma at2_mk [simp]: "at2 \<lparr>shape = [a, b], data = d\<rparr> i j = d ! (i * b + j)"
  by (simp add: at2_def)

lemma at3_mk [simp]: "at3 \<lparr>shape = [a, b, c], data = d\<rparr> i j k = d ! ((i * b + j) * c + k)"
  by (simp add: at3_def)

lemma at4_mk [simp]:
  "at4 \<lparr>shape = [a, b, c, e], data = d\<rparr> i j k l = d ! (((i * b + j) * c + k) * e + l)"
  by (simp add: at4_def)

lemma int_ne_m1 [simp]: "int a \<noteq> - 1" "- 1 \<noteq> int a" "\<not> int a < - 1"
  by simp_all






subsection \<open>Views and memory layout\<close>


lemma view_incompatible:
  "infer_size dims (numel (contents t)) = Inr ns
    \<Longrightarrow> \<not> view_compatible (shape (contents t)) (strides t) ns
    \<Longrightarrow> view t dims = Inl RuntimeError"
  by (simp add: view_def bind_e_def)



lemma length_row_major [simp]: "length (row_major ds) = length ds"
  by (induction ds) simp_all

lemma row_major_Nil [simp]: "row_major ds = [] \<longleftrightarrow> ds = []"
  by (cases ds) simp_all


lemma max_1_pos: "\<forall>d\<in>set ds. 0 < d \<Longrightarrow> map (max 1) ds = (ds :: nat list)"
  by (induction ds) (simp_all add: max_def)





lemma contents_contiguous [simp]: "contents (contiguous t) = t"
  by (simp add: contiguous_def)

lemma strides_contiguous [simp]: "strides (contiguous t) = row_major (shape t)"
  by (simp add: contiguous_def)


lemma decode2: "j < B \<Longrightarrow> (i * B + j) div B = i" "j < B \<Longrightarrow> (i * B + j) mod B = (j::nat)"
  by simp_all

lemma decode3:
  assumes "ki < K" "kj < K"
  shows "((ci * K + ki) * K + kj) div (K * K) = ci"
    and "((ci * K + ki) * K + kj) div K mod K = ki"
    and "((ci * K + ki) * K + kj) mod K = (kj::nat)"
proof -
  have e: "(ci * K + ki) * K + kj = ci * (K * K) + (ki * K + kj)" by (simp add: algebra_simps)
  have l: "ki * K + kj < K * K" using assms by (rule idx_less)
  show "((ci * K + ki) * K + kj) div (K * K) = ci" unfolding e by (rule decode2(1)[OF l])
  show "((ci * K + ki) * K + kj) div K mod K = ki" using assms by simp
  show "((ci * K + ki) * K + kj) mod K = kj" using assms by simp
qed

lemma sum_list_cong:
  "(\<And>x. x \<in> set xs \<Longrightarrow> f x = g x) \<Longrightarrow> sum_list (map f xs) = sum_list (map g xs)"
  by (rule arg_cong[where f = sum_list]) (rule map_cong, simp_all)



lemma out_size_pos [simp]: "0 < out_size H K s p"
  by (simp add: out_size_def)

lemma unfold_ok:
  assumes "shape x = [N, C, H, W]" "0 < K" "0 < s" "0 < C" "0 < H" "0 < W"
    "K \<le> H + 2 * p" "K \<le> W + 2 * p"
  shows "unfold x K p s = Inr \<lparr>shape = [N, C * K * K, out_size H K s p * out_size W K s p],
               data = tab3 N (C * K * K) (out_size H K s p * out_size W K s p)
                 (patch_entry x K p s (out_size W K s p))\<rparr>"
  using assms by (simp add: unfold_def Let_def)

lemma patch_entry_decoded:
  assumes "ki < K" "kj < K" "ow < W_o"
  shows "patch_entry x K p s W_o n ((ci * K + ki) * K + kj) (oh * W_o + ow)
       = padded_at x p n ci (oh * s + ki) (ow * s + kj)"
  using assms by (simp add: patch_entry_def decode3)


section \<open>The sanity checks of forward\<close>

lemma infer_size_not_assert: "infer_size dims n \<noteq> Inl AssertionError"
  by (simp add: infer_size_def Let_def)

lemma view_not_assert: "view t dims \<noteq> Inl AssertionError"
  using infer_size_not_assert[of dims "numel (contents t)"]
  by (cases "infer_size dims (numel (contents t))") (simp_all add: view_def bind_e_def)

lemma window_args_not_assert: "window_args padding stride \<noteq> Inl AssertionError"
  by (simp add: window_args_def int64_arg_def bind_e_def split: pyval.splits)

lemma unfold_not_assert: "unfold x K p s \<noteq> Inl AssertionError"
  by (simp add: unfold_def Let_def)

lemma matmul_not_assert: "matmul a b \<noteq> Inl AssertionError"
  by (simp add: matmul_def Let_def)

lemma iadd_bcast_not_assert: "iadd_bcast t b \<noteq> Inl AssertionError"
  by (simp add: iadd_bcast_def Let_def)

lemma bind_e_Inl_iff:
  "bind_e r f = Inl e \<longleftrightarrow> r = Inl e \<or> (\<exists>v. r = Inr v \<and> f v = Inl e)"
  by (cases r) (simp_all add: bind_e_def)


lemma forward_compute_not_assert:
  "forward_compute x w b s p \<noteq> Inl AssertionError"
  by (cases b)
     (auto simp: forward_compute_def Let_def bind_e_Inl_iff unfold_not_assert
        view_not_assert matmul_not_assert iadd_bcast_not_assert window_args_not_assert)

text \<open>
  C4. On a 4-D input and a 4-D weight, \<^verbatim>\<open>forward\<close> raises an \<open>AssertionError\<close> exactly
  when the kernel is not square, or the input's channel count differs from the weight's
  second axis, or the stride is not a positive integer, or the padding is not a
  non-negative integer, or the kernel is larger than the padded input height or width.
  When it does, there is no output and nothing has been saved for backward.
\<close>

theorem forward_contract_error:
  assumes "length (shape input_feats) = 4" and "length (shape (contents weight)) = 4"
  shows "(snd (forward c input_feats weight bias stride padding) = Inl AssertionError
          \<longleftrightarrow>
          (shape (contents weight) ! 2 \<noteq> shape (contents weight) ! 3 \<or>
           shape input_feats ! 1 \<noteq> shape (contents weight) ! 1 \<or>
           \<not> is_pos_int stride \<or> \<not> is_nonneg_int padding \<or>
           int (shape input_feats ! 2) + 2 * int_of padding
             < int (shape (contents weight) ! 2) \<or>
           int (shape input_feats ! 3) + 2 * int_of padding
             < int (shape (contents weight) ! 2)))
         \<and>
         (snd (forward c input_feats weight bias stride padding) = Inl AssertionError
          \<longrightarrow>
          saved_tensors (fst (forward c input_feats weight bias stride padding))
            = saved_tensors c)"
  using assms forward_compute_not_assert[of input_feats weight bias stride padding]
  by (auto simp: forward_def Let_def is_pos_int_def is_nonneg_int_def int_of_def
      isinstance_int_def split: pyval.splits sum.splits prod.splits if_splits)

theorem forward_contract_error_witness:
  "snd (forward ctx0 ex_input (contiguous ex_weight) None (PyInt 0) (PyInt 0))
     = Inl AssertionError \<and>
   snd (forward ctx0 ex_input (contiguous ex_weight) None (PyInt 1) (PyInt 0))
     \<noteq> Inl AssertionError \<and>
   saved_tensors (fst (forward ctx0 ex_input (contiguous ex_weight) None (PyInt 0) (PyInt 0)))
     = None"
  using forward_contract_error[of ex_input "contiguous ex_weight" ctx0 None "PyInt 0" "PyInt 0"]
    forward_contract_error[of ex_input "contiguous ex_weight" ctx0 None "PyInt 1" "PyInt 0"]
  by (simp add: ex_input_def ex_weight_def ctx0_def is_pos_int_def is_nonneg_int_def
      int_of_def contiguous_def)

section \<open>Forward equals the reference convolution\<close>




subsection \<open>When forward returns\<close>








lemma ex_forward_empty_batch:
  "snd (forward ctx0 ex_empty_batch (contiguous ex_weight) (Some (contiguous ex_bias))
          (PyInt 1) (PyInt 0)) = Inl RuntimeError"
  by code_simp

lemma ex_forward_huge_stride:
  "snd (forward ctx0 ex_input (contiguous ex_weight) (Some (contiguous ex_bias))
          (PyInt (2 ^ 70)) (PyInt 0)) = Inl TypeError"
  by code_simp

lemma ex_forward_bool_stride:
  "snd (forward ctx0 ex_input (contiguous ex_weight) (Some (contiguous ex_bias))
          (PyBool True) (PyInt 0)) = Inl TypeError"
  by code_simp

lemma ex_forward_transposed_weight:
  "snd (forward ctx0 ex_input ex_weight_transposed (Some (contiguous ex_bias))
          (PyInt 1) (PyInt 0)) = Inl RuntimeError"
  by code_simp

theorem forward_valid_input_raises_counterexample:
  "snd (forward ctx0 ex_empty_batch (contiguous ex_weight) (Some (contiguous ex_bias))
          (PyInt 1) (PyInt 0)) = Inl RuntimeError \<and>
   shape ex_empty_batch = [0, 1, 3, 3] \<and>
   is_pos_int (PyInt (2 ^ 70)) \<and>
   snd (forward ctx0 ex_input (contiguous ex_weight) (Some (contiguous ex_bias))
          (PyInt (2 ^ 70)) (PyInt 0)) = Inl TypeError \<and>
   is_pos_int (PyBool True) \<and>
   snd (forward ctx0 ex_input (contiguous ex_weight) (Some (contiguous ex_bias))
          (PyBool True) (PyInt 0)) = Inl TypeError \<and>
   contents ex_weight_transposed = ex_weight \<and>
   snd (forward ctx0 ex_input ex_weight_transposed (Some (contiguous ex_bias))
          (PyInt 1) (PyInt 0)) = Inl RuntimeError"
proof -
  have "shape ex_empty_batch = [0, 1, 3, 3]" by (simp add: ex_empty_batch_def)
  moreover have "is_pos_int (PyInt (2 ^ 70))" "is_pos_int (PyBool True)"
    by (simp_all add: is_pos_int_def)
  moreover have "contents ex_weight_transposed = ex_weight"
    by (simp add: ex_weight_transposed_def)
  ultimately show ?thesis
    using ex_forward_empty_batch ex_forward_huge_stride ex_forward_bool_stride
      ex_forward_transposed_weight by blast
qed


section \<open>Sums over index ranges\<close>

lemma sum_list_upt:
  fixes f :: "nat \<Rightarrow> 'a::comm_monoid_add"
  shows "sum_list (map f [0..<n]) = sum f {..<n}"
  by (simp add: interv_sum_list_conv_sum_set_nat atLeast0LessThan)

lemma sum_upt_mult:
  fixes g :: "nat \<Rightarrow> 'a::comm_monoid_add"
  shows "sum g {..<A * B} = (\<Sum>a<A. \<Sum>b<B. g (a * B + b))"
  using sum_list_upt_mult[of g A B] by (simp add: sum_list_upt)

lemma sum_swap_1_2:
  fixes f :: "'i \<Rightarrow> 'j \<Rightarrow> 'k \<Rightarrow> 'a::comm_monoid_add"
  shows "(\<Sum>x\<in>X. \<Sum>a\<in>A. \<Sum>b\<in>B. f x a b) = (\<Sum>a\<in>A. \<Sum>b\<in>B. \<Sum>x\<in>X. f x a b)"
proof -
  have "(\<Sum>x\<in>X. \<Sum>a\<in>A. \<Sum>b\<in>B. f x a b) = (\<Sum>a\<in>A. \<Sum>x\<in>X. \<Sum>b\<in>B. f x a b)"
    by (rule sum.swap)
  also have "\<dots> = (\<Sum>a\<in>A. \<Sum>b\<in>B. \<Sum>x\<in>X. f x a b)"
    by (intro sum.cong refl) (rule sum.swap)
  finally show ?thesis .
qed

lemma sum_swap_2_2:
  fixes f :: "'i \<Rightarrow> 'j \<Rightarrow> 'k \<Rightarrow> 'l \<Rightarrow> 'a::comm_monoid_add"
  shows "(\<Sum>x\<in>X. \<Sum>y\<in>Y. \<Sum>a\<in>A. \<Sum>b\<in>B. f x y a b)
       = (\<Sum>a\<in>A. \<Sum>b\<in>B. \<Sum>x\<in>X. \<Sum>y\<in>Y. f x y a b)"
proof -
  have "(\<Sum>x\<in>X. \<Sum>y\<in>Y. \<Sum>a\<in>A. \<Sum>b\<in>B. f x y a b)
      = (\<Sum>x\<in>X. \<Sum>a\<in>A. \<Sum>b\<in>B. \<Sum>y\<in>Y. f x y a b)"
    by (intro sum.cong refl) (rule sum_swap_1_2)
  also have "\<dots> = (\<Sum>a\<in>A. \<Sum>b\<in>B. \<Sum>x\<in>X. \<Sum>y\<in>Y. f x y a b)"
    by (rule sum_swap_1_2)
  finally show ?thesis .
qed

lemma sum_swap_2_4:
  fixes f :: "'i \<Rightarrow> 'j \<Rightarrow> 'k \<Rightarrow> 'l \<Rightarrow> 'm \<Rightarrow> 'n \<Rightarrow> 'a::comm_monoid_add"
  shows "(\<Sum>x\<in>X. \<Sum>y\<in>Y. \<Sum>a\<in>A. \<Sum>b\<in>B. \<Sum>c\<in>C. \<Sum>d\<in>D. f x y a b c d)
       = (\<Sum>a\<in>A. \<Sum>b\<in>B. \<Sum>c\<in>C. \<Sum>d\<in>D. \<Sum>x\<in>X. \<Sum>y\<in>Y. f x y a b c d)"
proof -
  have "(\<Sum>x\<in>X. \<Sum>y\<in>Y. \<Sum>a\<in>A. \<Sum>b\<in>B. \<Sum>c\<in>C. \<Sum>d\<in>D. f x y a b c d)
      = (\<Sum>a\<in>A. \<Sum>b\<in>B. \<Sum>x\<in>X. \<Sum>y\<in>Y. \<Sum>c\<in>C. \<Sum>d\<in>D. f x y a b c d)"
    by (rule sum_swap_2_2)
  also have "\<dots> = (\<Sum>a\<in>A. \<Sum>b\<in>B. \<Sum>c\<in>C. \<Sum>d\<in>D. \<Sum>x\<in>X. \<Sum>y\<in>Y. f x y a b c d)"
    by (intro sum.cong refl) (rule sum_swap_2_2)
  finally show ?thesis .
qed

lemma sum_delta_shift:
  fixes f :: "nat \<Rightarrow> 'a::comm_monoid_add"
  shows "(\<Sum>k<K. if c + k = a then f k else 0) = (if c \<le> a \<and> a < c + K then f (a - c) else 0)"
proof -
  have "(\<Sum>k<K. if c + k = a then f k else 0) = (\<Sum>k<K. if k = a - c then (if c \<le> a then f k else 0) else 0)"
    by (intro sum.cong refl) auto
  also have "\<dots> = (if a - c < K then (if c \<le> a then f (a - c) else 0) else 0)"
    by (simp add: sum.delta)
  also have "\<dots> = (if c \<le> a \<and> a < c + K then f (a - c) else 0)"
    by auto
  finally show ?thesis .
qed

lemma sum_delta_pad:
  fixes f :: "nat \<Rightarrow> 'a::comm_monoid_add"
  shows "(\<Sum>h<H. if a = h + p then f h else 0) = (if p \<le> a \<and> a < H + p then f (a - p) else 0)"
  using sum_delta_shift[of p a f H] by (simp add: eq_commute add.commute)


section \<open>Fold after unfold\<close>

lemma fold_ok:
  assumes "shape t = [N, C * K * K, out_size H K s p * out_size W K s p]"
    "0 < K" "0 < s" "0 < C" "0 < H" "0 < W" "K \<le> H + 2 * p" "K \<le> W + 2 * p"
  shows "fold_t t (H, W) K p s = Inr \<lparr>shape = [N, C, H, W],
               data = tab4 N C H W (\<lambda>n c h w.
                 (\<Sum>ki\<leftarrow>[0..<K]. \<Sum>kj\<leftarrow>[0..<K].
                  \<Sum>oh\<leftarrow>[0..<out_size H K s p]. \<Sum>ow\<leftarrow>[0..<out_size W K s p].
                    if oh * s + ki = h + p \<and> ow * s + kj = w + p
                    then at3 t n ((c * K + ki) * K + kj) (oh * out_size W K s p + ow) else 0))\<rparr>"
  using assms by (simp add: fold_t_def Let_def)

lemma count_windows:
  fixes v :: "'a::comm_ring_1" and K H_o W_o s a b :: nat
  shows "(\<Sum>ki<K. \<Sum>kj<K. \<Sum>oh<H_o. \<Sum>ow<W_o.
            if oh * s + ki = a \<and> ow * s + kj = b then v else 0)
       = of_nat (\<Sum>oh<H_o. \<Sum>ow<W_o.
            if oh * s \<le> a \<and> a < oh * s + K \<and> ow * s \<le> b \<and> b < ow * s + K then 1 else 0) * v"
proof -
  have inner: "(\<Sum>ki<K. \<Sum>kj<K. if oh * s + ki = a \<and> ow * s + kj = b then v else 0)
      = (if oh * s \<le> a \<and> a < oh * s + K \<and> ow * s \<le> b \<and> b < ow * s + K then v else 0)"
    for oh ow
  proof -
    have "(\<Sum>ki<K. \<Sum>kj<K. if oh * s + ki = a \<and> ow * s + kj = b then v else 0)
        = (\<Sum>ki<K. if oh * s + ki = a then (\<Sum>kj<K. if ow * s + kj = b then v else 0) else 0)"
      by (intro sum.cong refl) simp
    also have "\<dots> = (if oh * s \<le> a \<and> a < oh * s + K
                       then (\<Sum>kj<K. if ow * s + kj = b then v else 0) else 0)"
      by (rule sum_delta_shift)
    also have "\<dots> = (if oh * s \<le> a \<and> a < oh * s + K \<and> ow * s \<le> b \<and> b < ow * s + K then v else 0)"
      by (simp add: sum_delta_shift)
    finally show ?thesis .
  qed
  have "(\<Sum>ki<K. \<Sum>kj<K. \<Sum>oh<H_o. \<Sum>ow<W_o.
            if oh * s + ki = a \<and> ow * s + kj = b then v else 0)
      = (\<Sum>oh<H_o. \<Sum>ow<W_o. \<Sum>ki<K. \<Sum>kj<K.
            if oh * s + ki = a \<and> ow * s + kj = b then v else 0)"
    by (rule sum_swap_2_2)
  also have "\<dots> = (\<Sum>oh<H_o. \<Sum>ow<W_o.
       if oh * s \<le> a \<and> a < oh * s + K \<and> ow * s \<le> b \<and> b < ow * s + K then v else 0)"
    by (simp only: inner)
  also have "\<dots> = (\<Sum>oh<H_o. \<Sum>ow<W_o.
       of_nat (if oh * s \<le> a \<and> a < oh * s + K \<and> ow * s \<le> b \<and> b < ow * s + K then 1 else 0) * v)"
    by (intro sum.cong refl) simp
  also have "\<dots> = of_nat (\<Sum>oh<H_o. \<Sum>ow<W_o.
            if oh * s \<le> a \<and> a < oh * s + K \<and> ow * s \<le> b \<and> b < ow * s + K then 1 else 0) * v"
    by (simp add: sum_distrib_right)
  finally show ?thesis .
qed

lemma padded_at_inside:
  "shape x = [N, C, H, W] \<Longrightarrow> h < H \<Longrightarrow> w < W \<Longrightarrow> padded_at x p n c (h + p) (w + p) = at4 x n c h w"
  by (simp add: padded_at_def)

lemma fold_unfold:
  fixes x :: "'a::comm_ring_1 tensor"
  assumes x: "shape x = [N, C, H, W]"
    and pos: "0 < K" "0 < s" "0 < C" "0 < H" "0 < W"
    and fit: "K \<le> H + 2 * p" "K \<le> W + 2 * p"
  shows "bind_e (unfold x K p s) (\<lambda>u. fold_t u (H, W) K p s)
       = Inr \<lparr>shape = [N, C, H, W],
              data = tab4 N C H W (\<lambda>n c h w.
                 of_nat (overlap_multiplicity H W K s p h w) * at4 x n c h w)\<rparr>"
proof -
  define H_o where "H_o = out_size H K s p"
  define W_o where "W_o = out_size W K s p"
  define U where "U = \<lparr>shape = [N, C * K * K, H_o * W_o],
               data = tab3 N (C * K * K) (H_o * W_o) (patch_entry x K p s W_o)\<rparr>"
  have u: "unfold x K p s = Inr U"
    unfolding U_def H_o_def W_o_def using x pos fit by (rule unfold_ok)
  have f: "fold_t U (H, W) K p s = Inr \<lparr>shape = [N, C, H, W],
               data = tab4 N C H W (\<lambda>n c h w.
                 (\<Sum>ki\<leftarrow>[0..<K]. \<Sum>kj\<leftarrow>[0..<K]. \<Sum>oh\<leftarrow>[0..<H_o]. \<Sum>ow\<leftarrow>[0..<W_o].
                    if oh * s + ki = h + p \<and> ow * s + kj = w + p
                    then at3 U n ((c * K + ki) * K + kj) (oh * W_o + ow) else 0))\<rparr>"
    unfolding H_o_def W_o_def
    by (rule fold_ok) (use pos fit in \<open>simp_all add: U_def H_o_def W_o_def\<close>)
  have atU: "at3 U n ((c * K + ki) * K + kj) (oh * W_o + ow)
      = padded_at x p n c (oh * s + ki) (ow * s + kj)"
    if "n < N" "c < C" "ki < K" "kj < K" "oh < H_o" "ow < W_o" for n c ki kj oh ow
  proof -
    have r: "(c * K + ki) * K + kj < C * K * K"
      using idx_less[OF idx_less[OF that(2,3)] that(4)] .
    have l: "oh * W_o + ow < H_o * W_o" using that(5,6) by (rule idx_less)
    show ?thesis
      using that r l by (simp add: U_def nth_tab3 patch_entry_decoded)
  qed
  have pt: "(\<Sum>ki\<leftarrow>[0..<K]. \<Sum>kj\<leftarrow>[0..<K]. \<Sum>oh\<leftarrow>[0..<H_o]. \<Sum>ow\<leftarrow>[0..<W_o].
                    if oh * s + ki = h + p \<and> ow * s + kj = w + p
                    then at3 U n ((c * K + ki) * K + kj) (oh * W_o + ow) else 0)
      = of_nat (overlap_multiplicity H W K s p h w) * at4 x n c h w"
    if "n < N" "c < C" "h < H" "w < W" for n c h w
  proof -
    have "(\<Sum>ki\<leftarrow>[0..<K]. \<Sum>kj\<leftarrow>[0..<K]. \<Sum>oh\<leftarrow>[0..<H_o]. \<Sum>ow\<leftarrow>[0..<W_o].
                    if oh * s + ki = h + p \<and> ow * s + kj = w + p
                    then at3 U n ((c * K + ki) * K + kj) (oh * W_o + ow) else 0)
       = (\<Sum>ki\<leftarrow>[0..<K]. \<Sum>kj\<leftarrow>[0..<K]. \<Sum>oh\<leftarrow>[0..<H_o]. \<Sum>ow\<leftarrow>[0..<W_o].
                    if oh * s + ki = h + p \<and> ow * s + kj = w + p
                    then at4 x n c h w else 0)"
      using that by (intro sum_list_cong) (auto simp: atU padded_at_inside[OF x])
    also have "\<dots> = of_nat (overlap_multiplicity H W K s p h w) * at4 x n c h w"
      unfolding overlap_multiplicity_def sum_list_upt H_o_def[symmetric] W_o_def[symmetric]
      by (rule count_windows)
    finally show ?thesis .
  qed
  have dat: "tab4 N C H W (\<lambda>n c h w.
                 (\<Sum>ki\<leftarrow>[0..<K]. \<Sum>kj\<leftarrow>[0..<K]. \<Sum>oh\<leftarrow>[0..<H_o]. \<Sum>ow\<leftarrow>[0..<W_o].
                    if oh * s + ki = h + p \<and> ow * s + kj = w + p
                    then at3 U n ((c * K + ki) * K + kj) (oh * W_o + ow) else 0))
     = tab4 N C H W (\<lambda>n c h w.
                 of_nat (overlap_multiplicity H W K s p h w) * at4 x n c h w)"
    by (rule tab4_cong) (simp add: pt)
  show ?thesis
    by (simp only: u bind_e_def sum.case f dat)
qed


lemma sum_delta_pad2:
  fixes f :: "nat \<Rightarrow> nat \<Rightarrow> 'a::comm_monoid_add"
  shows "(\<Sum>h<H. \<Sum>w<W. if a = h + p \<and> b = w + p then f h w else 0)
       = (if p \<le> a \<and> a < H + p \<and> p \<le> b \<and> b < W + p then f (a - p) (b - p) else 0)"
proof -
  have "(\<Sum>h<H. \<Sum>w<W. if a = h + p \<and> b = w + p then f h w else 0)
      = (\<Sum>h<H. if a = h + p then (\<Sum>w<W. if b = w + p then f h w else 0) else 0)"
    by (intro sum.cong refl) simp
  also have "\<dots> = (if p \<le> a \<and> a < H + p
                     then (\<Sum>w<W. if b = w + p then f (a - p) w else 0) else 0)"
    by (rule sum_delta_pad)
  also have "\<dots> = (if p \<le> a \<and> a < H + p \<and> p \<le> b \<and> b < W + p then f (a - p) (b - p) else 0)"
    by (simp add: sum_delta_pad)
  finally show ?thesis .
qed

lemma fold_adjoint_sum:
  fixes P :: "nat \<Rightarrow> nat \<Rightarrow> nat \<Rightarrow> nat \<Rightarrow> 'a::comm_ring_1" and D :: "nat \<Rightarrow> nat \<Rightarrow> 'a"
    and H W K H_o W_o s p :: nat
  shows "(\<Sum>h<H. \<Sum>w<W.
            (\<Sum>ki<K. \<Sum>kj<K. \<Sum>oh<H_o. \<Sum>ow<W_o.
               if oh * s + ki = h + p \<and> ow * s + kj = w + p then P ki kj oh ow else 0) * D h w)
       = (\<Sum>ki<K. \<Sum>kj<K. \<Sum>oh<H_o. \<Sum>ow<W_o.
            P ki kj oh ow *
            (if p \<le> oh * s + ki \<and> oh * s + ki < H + p \<and> p \<le> ow * s + kj \<and> ow * s + kj < W + p
             then D (oh * s + ki - p) (ow * s + kj - p) else 0))"
proof -
  have "(\<Sum>h<H. \<Sum>w<W.
            (\<Sum>ki<K. \<Sum>kj<K. \<Sum>oh<H_o. \<Sum>ow<W_o.
               if oh * s + ki = h + p \<and> ow * s + kj = w + p then P ki kj oh ow else 0) * D h w)
      = (\<Sum>h<H. \<Sum>w<W. \<Sum>ki<K. \<Sum>kj<K. \<Sum>oh<H_o. \<Sum>ow<W_o.
               if oh * s + ki = h + p \<and> ow * s + kj = w + p then P ki kj oh ow * D h w else 0)"
    by (simp add: sum_distrib_right if_distrib[of "\<lambda>x. x * _"] cong: if_cong)
  also have "\<dots> = (\<Sum>ki<K. \<Sum>kj<K. \<Sum>oh<H_o. \<Sum>ow<W_o. \<Sum>h<H. \<Sum>w<W.
               if oh * s + ki = h + p \<and> ow * s + kj = w + p then P ki kj oh ow * D h w else 0)"
    by (rule sum_swap_2_4)
  also have "\<dots> = (\<Sum>ki<K. \<Sum>kj<K. \<Sum>oh<H_o. \<Sum>ow<W_o.
      (if p \<le> oh * s + ki \<and> oh * s + ki < H + p \<and> p \<le> ow * s + kj \<and> ow * s + kj < W + p
             then P ki kj oh ow * D (oh * s + ki - p) (ow * s + kj - p) else 0))"
    by (simp only: sum_delta_pad2)
  also have "\<dots> = (\<Sum>ki<K. \<Sum>kj<K. \<Sum>oh<H_o. \<Sum>ow<W_o.
            P ki kj oh ow *
            (if p \<le> oh * s + ki \<and> oh * s + ki < H + p \<and> p \<le> ow * s + kj \<and> ow * s + kj < W + p
             then D (oh * s + ki - p) (ow * s + kj - p) else 0))"
    by (intro sum.cong refl) simp
  finally show ?thesis .
qed

lemma tab2_idx: "tab2 A B (\<lambda>a b. g (a * B + b)) = map g [0..<A * B]"
  by (simp add: tab2_def map_upt_mult)

lemma tab3_idx: "tab3 A B C (\<lambda>a b c. g ((a * B + b) * C + c)) = map g [0..<A * B * C]"
proof -
  have "tab3 A B C (\<lambda>a b c. g ((a * B + b) * C + c))
      = concat (map (\<lambda>a. map (\<lambda>j. g (a * (B * C) + j)) [0..<B * C]) [0..<A])"
    unfolding tab3_def
    by (intro arg_cong[where f = concat] map_cong refl)
       (simp add: tab2_idx[symmetric] algebra_simps)
  also have "\<dots> = map g [0..<A * (B * C)]" by (simp add: map_upt_mult)
  finally show ?thesis by (simp add: mult.assoc)
qed

lemma tab4_idx:
  "tab4 A B C D (\<lambda>a b c d. g (((a * B + b) * C + c) * D + d)) = map g [0..<A * B * C * D]"
proof -
  have idx: "((a * B + b) * C + c) * D + d = a * (B * C * D) + ((b * C + c) * D + d)" for a b c d
    by (simp add: algebra_simps)
  have "tab4 A B C D (\<lambda>a b c d. g (((a * B + b) * C + c) * D + d))
      = concat (map (\<lambda>a. map (\<lambda>j. g (a * (B * C * D) + j)) [0..<B * C * D]) [0..<A])"
    unfolding tab4_def idx
    by (intro arg_cong[where f = concat] map_cong refl tab3_idx)
  also have "\<dots> = map g [0..<A * (B * C * D)]" by (simp add: map_upt_mult)
  finally show ?thesis by (simp add: mult.assoc)
qed

lemma tab4_at4:
  assumes "shape x = [N, C, H, W]" "wf_tensor x"
  shows "tab4 N C H W (at4 x) = data x"
proof -
  have len: "length (data x) = N * C * H * W"
    using assms by (simp add: wf_tensor_def numel_def mult.assoc)
  have "tab4 N C H W (at4 x) = tab4 N C H W (\<lambda>a b c d. data x ! (((a * C + b) * H + c) * W + d))"
    using assms by (intro tab4_cong) (simp add: at4_def)
  also have "\<dots> = map ((!) (data x)) [0..<N * C * H * W]" by (rule tab4_idx)
  also have "\<dots> = data x"
    unfolding len[symmetric] by (rule map_nth)
  finally show ?thesis .
qed

lemma sum_upt_mult3:
  fixes g :: "nat \<Rightarrow> 'a::comm_monoid_add"
  shows "sum g {..<A * B * C} = (\<Sum>a<A. \<Sum>b<B. \<Sum>c<C. g ((a * B + b) * C + c))"
  by (simp add: sum_upt_mult[of g "A * B" C] sum_upt_mult[of _ A B])

lemma sum_upt_mult4:
  fixes g :: "nat \<Rightarrow> 'a::comm_monoid_add"
  shows "sum g {..<A * B * C * D}
       = (\<Sum>a<A. \<Sum>b<B. \<Sum>c<C. \<Sum>d<D. g (((a * B + b) * C + c) * D + d))"
proof -
  have "sum g {..<A * B * C * D} = (\<Sum>i<A * B * C. \<Sum>d<D. g (i * D + d))"
    by (rule sum_upt_mult)
  also have "\<dots> = (\<Sum>a<A. \<Sum>b<B. \<Sum>c<C. \<Sum>d<D. g (((a * B + b) * C + c) * D + d))"
    by (rule sum_upt_mult3)
  finally show ?thesis .
qed

lemma dot_sum:
  assumes "length (data a) = n" "length (data b) = n"
  shows "dot a b = (\<Sum>i<n. data a ! i * data b ! i)"
proof -
  have "map2 (*) (data a) (data b) = map (\<lambda>i. data a ! i * data b ! i) [0..<n]"
    using assms by (intro nth_equalityI) simp_all
  then show ?thesis by (simp add: dot_def sum_list_upt)
qed

lemma covering_unique:
  fixes K s a :: nat
  assumes "K \<le> s" "oh * s \<le> a" "a < oh * s + K" "oh' * s \<le> a" "a < oh' * s + K"
  shows "oh = oh'"
proof (rule ccontr)
  assume ne: "oh \<noteq> oh'"
  have aux: False if lt: "i < j" and i: "a < i * s + K" and j: "j * s \<le> a" for i j
  proof -
    have "Suc i * s \<le> j * s" using lt by (intro mult_le_mono1) simp
    then have "i * s + s \<le> a" using j by simp
    then show False using i assms(1) by simp
  qed
  from ne consider "oh < oh'" | "oh' < oh" by linarith
  then show False using aux assms by cases blast+
qed

lemma count_covering_le_1:
  fixes K s a n :: nat
  assumes "K \<le> s"
  shows "(\<Sum>oh<n. if oh * s \<le> a \<and> a < oh * s + K then 1 else 0) \<le> (1::nat)"
proof -
  let ?S = "{oh \<in> {..<n}. oh * s \<le> a \<and> a < oh * s + K}"
  have "(\<Sum>oh<n. if oh * s \<le> a \<and> a < oh * s + K then 1 else 0) = card ?S"
    by (simp add: sum.If_cases Int_def)
  also have "\<dots> \<le> Suc 0"
    by (subst card_le_Suc0_iff_eq) (auto intro: covering_unique[OF assms])
  finally show ?thesis by simp
qed

lemma multiplicity_product:
  "overlap_multiplicity H W K s p h w =
     (\<Sum>oh<out_size H K s p. if oh * s \<le> h + p \<and> h + p < oh * s + K then 1 else 0) *
     (\<Sum>ow<out_size W K s p. if ow * s \<le> w + p \<and> w + p < ow * s + K then 1 else 0)"
proof -
  have "overlap_multiplicity H W K s p h w =
      (\<Sum>oh<out_size H K s p. \<Sum>ow<out_size W K s p.
         (if oh * s \<le> h + p \<and> h + p < oh * s + K then 1 else 0) *
         (if ow * s \<le> w + p \<and> w + p < ow * s + K then 1 else 0))"
    unfolding overlap_multiplicity_def sum_list_upt
    by (intro sum.cong refl) simp
  then show ?thesis by (simp add: sum_product)
qed

lemma multiplicity_le_1:
  assumes "K \<le> s"
  shows "overlap_multiplicity H W K s p h w \<le> 1"
proof -
  have "overlap_multiplicity H W K s p h w \<le> 1 * 1"
    unfolding multiplicity_product
    by (intro mult_le_mono count_covering_le_1 assms)
  then show ?thesis by simp
qed


lemma wf_tensor_len4:
  "shape x = [N, C, H, W] \<Longrightarrow> wf_tensor x \<Longrightarrow> length (data x) = N * C * H * W"
  by (simp add: wf_tensor_def numel_def mult.assoc)

lemma wf_tensor_len3:
  "shape x = [N, C, H] \<Longrightarrow> wf_tensor x \<Longrightarrow> length (data x) = N * C * H"
  by (simp add: wf_tensor_def numel_def mult.assoc)

lemma dot_sum4:
  assumes "shape a = [N, C, H, W]" "length (data a) = N * C * H * W"
    and "shape b = [N, C, H, W]" "length (data b) = N * C * H * W"
  shows "dot a b = (\<Sum>n<N. \<Sum>c<C. \<Sum>h<H. \<Sum>w<W. at4 a n c h w * at4 b n c h w)"
  using assms by (simp add: dot_sum[OF assms(2,4)] sum_upt_mult4 at4_def)

lemma dot_sum3:
  assumes "shape a = [N, C, H]" "length (data a) = N * C * H"
    and "shape b = [N, C, H]" "length (data b) = N * C * H"
  shows "dot a b = (\<Sum>n<N. \<Sum>c<C. \<Sum>h<H. at3 a n c h * at3 b n c h)"
  using assms by (simp add: dot_sum[OF assms(2,4)] sum_upt_mult3 at3_def)

lemma fold_unfold_adjoint:
  fixes x t :: "'a::comm_ring_1 tensor"
  assumes x: "shape x = [N, C, H, W]" and wfx: "wf_tensor x"
    and t: "shape t = [N, C * K * K, out_size H K s p * out_size W K s p]" and wft: "wf_tensor t"
    and pos: "0 < K" "0 < s" "0 < C" "0 < H" "0 < W"
    and fit: "K \<le> H + 2 * p" "K \<le> W + 2 * p"
  shows "\<exists>u f. unfold x K p s = Inr u \<and> fold_t t (H, W) K p s = Inr f \<and>
           shape f = [N, C, H, W] \<and> wf_tensor f \<and> dot f x = dot t u"
proof -
  define H_o where "H_o = out_size H K s p"
  define W_o where "W_o = out_size W K s p"
  define U where "U = \<lparr>shape = [N, C * K * K, H_o * W_o],
               data = tab3 N (C * K * K) (H_o * W_o) (patch_entry x K p s W_o)\<rparr>"
  define G where "G = (\<lambda>n c h w.
                 (\<Sum>ki\<leftarrow>[0..<K]. \<Sum>kj\<leftarrow>[0..<K]. \<Sum>oh\<leftarrow>[0..<H_o]. \<Sum>ow\<leftarrow>[0..<W_o].
                    if oh * s + ki = h + p \<and> ow * s + kj = w + p
                    then at3 t n ((c * K + ki) * K + kj) (oh * W_o + ow) else 0))"
  define F where "F = \<lparr>shape = [N, C, H, W], data = tab4 N C H W G\<rparr>"
  have u: "unfold x K p s = Inr U"
    unfolding U_def H_o_def W_o_def using x pos fit by (rule unfold_ok)
  have f: "fold_t t (H, W) K p s = Inr F"
    unfolding F_def G_def H_o_def W_o_def using t pos fit by (rule fold_ok)
  have wfF: "wf_tensor F" by (simp add: F_def wf_tensor_def numel_def mult.assoc)
  have atF: "at4 F n c h w = G n c h w" if "n < N" "c < C" "h < H" "w < W" for n c h w
    using that by (simp add: F_def nth_tab4)
  have atU: "at3 U n ((c * K + ki) * K + kj) (oh * W_o + ow)
      = padded_at x p n c (oh * s + ki) (ow * s + kj)"
    if "n < N" "c < C" "ki < K" "kj < K" "oh < H_o" "ow < W_o" for n c ki kj oh ow
  proof -
    have r: "(c * K + ki) * K + kj < C * K * K"
      using idx_less[OF idx_less[OF that(2,3)] that(4)] .
    have l: "oh * W_o + ow < H_o * W_o" using that(5,6) by (rule idx_less)
    show ?thesis
      using that r l by (simp add: U_def nth_tab3 patch_entry_decoded)
  qed
  have pad: "padded_at x p n c i j =
      (if p \<le> i \<and> i < H + p \<and> p \<le> j \<and> j < W + p then at4 x n c (i - p) (j - p) else 0)"
    for n c i j by (simp add: padded_at_def x)
  have per: "(\<Sum>h<H. \<Sum>w<W. G n c h w * at4 x n c h w)
      = (\<Sum>ki<K. \<Sum>kj<K. \<Sum>oh<H_o. \<Sum>ow<W_o.
       at3 t n ((c * K + ki) * K + kj) (oh * W_o + ow) * padded_at x p n c (oh * s + ki) (ow * s + kj))"
    for n c
    unfolding G_def sum_list_upt pad by (rule fold_adjoint_sum)
  have lhs: "dot F x = (\<Sum>n<N. \<Sum>c<C. \<Sum>ki<K. \<Sum>kj<K. \<Sum>oh<H_o. \<Sum>ow<W_o.
       at3 t n ((c * K + ki) * K + kj) (oh * W_o + ow) * padded_at x p n c (oh * s + ki) (ow * s + kj))"
  proof -
    have "dot F x = (\<Sum>n<N. \<Sum>c<C. \<Sum>h<H. \<Sum>w<W. at4 F n c h w * at4 x n c h w)"
      by (rule dot_sum4) (simp_all add: F_def x wf_tensor_len4[OF x wfx])
    also have "\<dots> = (\<Sum>n<N. \<Sum>c<C. \<Sum>h<H. \<Sum>w<W. G n c h w * at4 x n c h w)"
      by (intro sum.cong refl) (simp add: atF)
    also have "\<dots> = (\<Sum>n<N. \<Sum>c<C. \<Sum>ki<K. \<Sum>kj<K. \<Sum>oh<H_o. \<Sum>ow<W_o.
       at3 t n ((c * K + ki) * K + kj) (oh * W_o + ow) * padded_at x p n c (oh * s + ki) (ow * s + kj))"
      by (simp only: per)
    finally show ?thesis .
  qed
  have rhs: "dot t U = (\<Sum>n<N. \<Sum>c<C. \<Sum>ki<K. \<Sum>kj<K. \<Sum>oh<H_o. \<Sum>ow<W_o.
       at3 t n ((c * K + ki) * K + kj) (oh * W_o + ow) * padded_at x p n c (oh * s + ki) (ow * s + kj))"
  proof -
    have "dot t U = (\<Sum>n<N. \<Sum>r<C * K * K. \<Sum>l<H_o * W_o. at3 t n r l * at3 U n r l)"
      by (rule dot_sum3)
         (simp_all add: U_def t H_o_def W_o_def wf_tensor_len3[OF t wft])
    also have "\<dots> = (\<Sum>n<N. \<Sum>c<C. \<Sum>ki<K. \<Sum>kj<K. \<Sum>oh<H_o. \<Sum>ow<W_o.
       at3 t n ((c * K + ki) * K + kj) (oh * W_o + ow) * at3 U n ((c * K + ki) * K + kj) (oh * W_o + ow))"
      by (simp add: sum_upt_mult3 sum_upt_mult)
    also have "\<dots> = (\<Sum>n<N. \<Sum>c<C. \<Sum>ki<K. \<Sum>kj<K. \<Sum>oh<H_o. \<Sum>ow<W_o.
       at3 t n ((c * K + ki) * K + kj) (oh * W_o + ow) * padded_at x p n c (oh * s + ki) (ow * s + kj))"
      by (intro sum.cong refl) (simp add: atU)
    finally show ?thesis .
  qed
  show ?thesis using u f wfF lhs rhs by (simp add: F_def)
qed


text \<open>
  C3 (as amended). For a well-formed input of shape \<open>(N, C, H, W)\<close> and valid
  convolution parameters, folding the unfolded input back to \<open>(H, W)\<close> gives the input
  with each element multiplied by its overlap multiplicity, the number of receptive
  fields that cover its position, whatever the stride. When the stride is at least the
  kernel size that number is 0 or 1, and the round trip returns the input itself when
  every position is covered exactly once. Fold is the adjoint of unfold: for every patch
  matrix \<open>t\<close>, the inner product of \<open>fold t\<close> with \<open>x\<close> is the inner product of \<open>t\<close>
  with \<open>unfold x\<close>.
\<close>

theorem fold_unfold_round_trip:
  fixes x :: "'a::comm_ring_1 tensor"
  assumes x: "shape x = [N, C, H, W]" and wfx: "wf_tensor x"
    and pos: "0 < K" "0 < s" "0 < C" "0 < H" "0 < W"
    and fit: "K \<le> H + 2 * p" "K \<le> W + 2 * p"
  shows "bind_e (unfold x K p s) (\<lambda>u. fold_t u (H, W) K p s)
           = Inr \<lparr>shape = [N, C, H, W],
                  data = tab4 N C H W (\<lambda>n c h w.
                    of_nat (overlap_multiplicity H W K s p h w) * at4 x n c h w)\<rparr>
         \<and> (K \<le> s \<longrightarrow> (\<forall>h w. overlap_multiplicity H W K s p h w \<le> 1))
         \<and> ((\<forall>h<H. \<forall>w<W. overlap_multiplicity H W K s p h w = 1)
              \<longrightarrow> bind_e (unfold x K p s) (\<lambda>u. fold_t u (H, W) K p s) = Inr x)
         \<and> (\<forall>t. shape t = [N, C * K * K, out_size H K s p * out_size W K s p] \<and> wf_tensor t
              \<longrightarrow> (\<exists>u f. unfold x K p s = Inr u \<and> fold_t t (H, W) K p s = Inr f \<and>
                     dot f x = dot t u))"
proof -
  note rt = fold_unfold[OF x pos fit]
  have one: "bind_e (unfold x K p s) (\<lambda>u. fold_t u (H, W) K p s) = Inr x"
    if m: "\<forall>h<H. \<forall>w<W. overlap_multiplicity H W K s p h w = 1"
  proof -
    have "tab4 N C H W (\<lambda>n c h w. of_nat (overlap_multiplicity H W K s p h w) * at4 x n c h w)
        = tab4 N C H W (at4 x)"
      by (rule tab4_cong) (simp add: m)
    also have "\<dots> = data x" using x wfx by (rule tab4_at4)
    finally show ?thesis unfolding rt using x by simp
  qed
  have adj: "\<exists>u f. unfold x K p s = Inr u \<and> fold_t t (H, W) K p s = Inr f \<and> dot f x = dot t u"
    if "shape t = [N, C * K * K, out_size H K s p * out_size W K s p]" "wf_tensor t" for t
    using fold_unfold_adjoint[OF x wfx that pos fit] by blast
  show ?thesis using rt one adj multiplicity_le_1 by blast
qed

lemma ex_cex: "bind_e (unfold ex_input 2 0 2) (\<lambda>u. fold_t u (3, 3) 2 0 2)
    = Inr \<lparr>shape = [1, 1, 3, 3], data = [1, 2, 0, 4, 5, 0, 0, 0, 0]\<rparr>"
  by code_simp

theorem fold_unfold_stride_ge_kernel_counterexample:
  "shape ex_input = [1, 1, 3, 3] \<and> (2::nat) \<le> 2 \<and>
   bind_e (unfold ex_input 2 0 2) (\<lambda>u. fold_t u (3, 3) 2 0 2) \<noteq> Inr ex_input"
  by (simp add: ex_cex) (simp add: ex_input_def)

theorem fold_unfold_round_trip_witness:
  "bind_e (unfold ex_input 2 1 2) (\<lambda>u. fold_t u (3, 3) 2 1 2) = Inr ex_input \<and>
   bind_e (unfold ex_input 2 0 1) (\<lambda>u. fold_t u (3, 3) 2 0 1)
     = Inr \<lparr>shape = [1, 1, 3, 3], data = [1, 4, 3, 8, 20, 12, 7, 16, 9]\<rparr>"
proof -
  have h1: "shape ex_input = [1, 1, 3, 3]" by (simp add: ex_input_def)
  have h2: "wf_tensor ex_input" by (simp add: ex_input_def wf_tensor_def numel_def)
  have m: "\<forall>h<3. \<forall>w<3. overlap_multiplicity 3 3 2 2 1 h w = 1"
  proof (intro allI impI)
    fix h w :: nat assume "h < 3" "w < 3"
    then have "(h = 0 \<or> h = 1 \<or> h = 2) \<and> (w = 0 \<or> w = 1 \<or> w = 2)" by auto
    moreover have "overlap_multiplicity 3 3 2 2 1 0 0 = 1" "overlap_multiplicity 3 3 2 2 1 0 1 = 1"
      "overlap_multiplicity 3 3 2 2 1 0 2 = 1" "overlap_multiplicity 3 3 2 2 1 1 0 = 1"
      "overlap_multiplicity 3 3 2 2 1 1 1 = 1" "overlap_multiplicity 3 3 2 2 1 1 2 = 1"
      "overlap_multiplicity 3 3 2 2 1 2 0 = 1" "overlap_multiplicity 3 3 2 2 1 2 1 = 1"
      "overlap_multiplicity 3 3 2 2 1 2 2 = 1"
      by code_simp+
    ultimately show "overlap_multiplicity 3 3 2 2 1 h w = 1" by auto
  qed
  have a: "bind_e (unfold ex_input 2 1 2) (\<lambda>u. fold_t u (3, 3) 2 1 2) = Inr ex_input"
    using fold_unfold_round_trip[OF h1 h2, of 2 2 1, THEN conjunct2, THEN conjunct2, THEN conjunct1] m
    by simp
  have r: "tab4 1 1 3 3 (\<lambda>n c h w. of_nat (overlap_multiplicity 3 3 2 1 0 h w) * at4 ex_input n c h w)
      = [1, 4, 3, 8, 20, 12, 7, 16, 9]"
    by code_simp
  have b: "bind_e (unfold ex_input 2 0 1) (\<lambda>u. fold_t u (3, 3) 2 0 1)
     = Inr \<lparr>shape = [1, 1, 3, 3], data = [1, 4, 3, 8, 20, 12, 7, 16, 9]\<rparr>"
    unfolding r[symmetric]
    by (rule fold_unfold_round_trip[OF h1 h2, THEN conjunct1]) simp_all
  show ?thesis using a b by simp
qed

section \<open>What backward computes\<close>


lemma bind_e_Inr [simp]: "bind_e (Inr v) f = f v"
  by (simp add: bind_e_def)

lemma bind_e_Inl [simp]: "bind_e (Inl e) f = Inl e"
  by (simp add: bind_e_def)



section \<open>The sums behind the gradients\<close>






section \<open>The gradients are the derivatives of forward\<close>



lemma shape_tensor_add [simp]: "shape (tensor_add a b) = shape a"
  by (simp add: tensor_add_def)

lemma wf_tensor_add:
  "wf_tensor a \<Longrightarrow> wf_tensor b \<Longrightarrow> shape b = shape a \<Longrightarrow> wf_tensor (tensor_add a b)"
  by (simp add: wf_tensor_def tensor_add_def numel_def)









lemma ex_forward:
  "forward ctx0 ex_input (contiguous ex_weight) (Some (contiguous ex_bias)) (PyInt 1) (PyInt 0)
     = (ctx0\<lparr>ctx_stride := Some (PyInt 1), ctx_padding := Some (PyInt 0),
             ctx_input_height := Some 3, ctx_input_width := Some 3,
             saved_tensors := Some (\<lparr>shape = [1, 4, 4],
               data = [1, 2, 4, 5, 2, 3, 5, 6, 4, 5, 7, 8, 5, 6, 8, 9]\<rparr>,
               contiguous ex_weight, Some (contiguous ex_bias))\<rparr>,
        Inr \<lparr>shape = [1, 1, 2, 2], data = [14, 16, 20, 22]\<rparr>)"
  by code_simp

lemma ex_backward_transposed:
  "backward (fst (forward ctx0 ex_input (contiguous ex_weight) (Some (contiguous ex_bias))
                    (PyInt 1) (PyInt 0))) ex_grad_transposed = Inl RuntimeError"
  by code_simp

theorem backward_transposed_gradient_counterexample:
  "snd (forward ctx0 ex_input (contiguous ex_weight) (Some (contiguous ex_bias))
          (PyInt 1) (PyInt 0)) = Inr \<lparr>shape = [1, 1, 2, 2], data = [14, 16, 20, 22]\<rparr> \<and>
   shape (contents ex_grad_transposed) = [1, 1, 2, 2] \<and>
   backward (fst (forward ctx0 ex_input (contiguous ex_weight) (Some (contiguous ex_bias))
                    (PyInt 1) (PyInt 0))) ex_grad_transposed = Inl RuntimeError"
proof -
  have "shape (contents ex_grad_transposed) = [1, 1, 2, 2]"
    by (simp add: ex_grad_transposed_def ex_grad_def)
  moreover have "snd (forward ctx0 ex_input (contiguous ex_weight) (Some (contiguous ex_bias))
          (PyInt 1) (PyInt 0)) = Inr \<lparr>shape = [1, 1, 2, 2], data = [14, 16, 20, 22]\<rparr>"
    by (simp add: ex_forward)
  ultimately show ?thesis using ex_backward_transposed by blast
qed


section \<open>The attack\<close>

































section \<open>The saliency map\<close>
















end
